theory Spec2Isabelle
  imports Complex_Main "HOL-Library.Word"
begin

section \<open>The chat page of the client (ChatPage.tsx, ModelSelector.tsx)\<close>

subsection \<open>JavaScript strings\<close>

text \<open>
  A JavaScript string is a sequence of UTF-16 code units; \<open>length\<close> counts code units,
  as \<^verbatim>\<open>String.prototype.length\<close> does. \<open>js\<close> writes an ASCII literal.
\<close>

type_synonym jsstring = "16 word list"

definition js :: "string \<Rightarrow> jsstring" where
  "js s = map (\<lambda>c. of_char c) s"

text \<open>
  \<^verbatim>\<open>String.prototype.trim\<close> removes the code units of ECMAScript's WhiteSpace and
  LineTerminator productions from both ends.
\<close>

definition isWhiteSpace :: "16 word \<Rightarrow> bool" where
  "isWhiteSpace c \<longleftrightarrow>
     c \<in> {0x9, 0xA, 0xB, 0xC, 0xD, 0x20, 0xA0, 0x1680, 0x2028, 0x2029, 0x202F, 0x205F,
          0x3000, 0xFEFF}
     \<or> (0x2000 \<le> c \<and> c \<le> 0x200A)"

definition trim :: "jsstring \<Rightarrow> jsstring" where
  "trim s = rev (dropWhile isWhiteSpace (rev (dropWhile isWhiteSpace s)))"

text \<open>
  A value that may be \<^verbatim>\<open>undefined\<close> is an option. \<open>truthy\<close> is JavaScript's
  truthiness of such a string: \<^verbatim>\<open>undefined\<close> and the empty string are falsy.
  \<open>or_else v d\<close> is \<^verbatim>\<open>v || d\<close>.
\<close>

definition truthy :: "jsstring option \<Rightarrow> bool" where
  "truthy v = (case v of None \<Rightarrow> False | Some s \<Rightarrow> s \<noteq> [])"

definition or_else :: "jsstring option \<Rightarrow> jsstring \<Rightarrow> jsstring" where
  "or_else v d = (case v of None \<Rightarrow> d | Some s \<Rightarrow> if s = [] then d else s)"

definition or_undefined :: "jsstring option \<Rightarrow> jsstring option" where
  "or_undefined v = (if truthy v then v else None)"

subsection \<open>Requests, stream events and effects\<close>

text \<open>
  The request object handed to \<^verbatim>\<open>chatApi.sendMessageStream\<close> and to
  \<^verbatim>\<open>sendMessageMutation.mutate\<close>. Its \<^verbatim>\<open>message\<close> field is \<open>req_message\<close>
  here, because the page's state variable has the same name. The decimal literals
  0.7 and 0.95 are read as the rationals they denote.
\<close>

record meta =
  model :: jsstring
  mode :: jsstring
  temperature :: real
  top_p :: real
  max_tokens :: int

record chat_request =
  conversation_id :: "jsstring option"
  req_message :: jsstring
  meta :: meta

definition build_request :: "jsstring option \<Rightarrow> jsstring \<Rightarrow> jsstring \<Rightarrow> chat_request" where
  "build_request conversationId currentMessage selectedModel =
     \<lparr> conversation_id = or_undefined conversationId,
       req_message = currentMessage,
       meta = \<lparr> model = selectedModel, mode = js ''chat'', temperature = 7 / 10,
                top_p = 95 / 100, max_tokens = 2048 \<rparr> \<rparr>"

text \<open>An \<^verbatim>\<open>Error\<close> object, as far as the page reads it: its \<^verbatim>\<open>message\<close>.\<close>

datatype js_error = JsError (error_message: "jsstring option")

text \<open>
  The callbacks \<^verbatim>\<open>onMetadata\<close>, \<^verbatim>\<open>onChunk\<close>, \<^verbatim>\<open>onComplete\<close> and
  \<^verbatim>\<open>onError\<close> that \<^verbatim>\<open>sendMessageStream\<close> invokes, as events. \<open>OnMetadata\<close>
  carries \<^verbatim>\<open>metadata.conversation_id\<close>, \<open>OnComplete\<close> the message id.
\<close>

datatype stream_event =
    OnMetadata "jsstring option"
  | OnChunk jsstring
  | OnComplete jsstring
  | OnError js_error

datatype query_key = Conversations | Conversation "jsstring option"

text \<open>What the page does to the outside, in the order it does it.\<close>

datatype effect =
    Alert jsstring
  | StreamSend chat_request
  | SyncSend chat_request
  | Navigate jsstring
  | Invalidate query_key

text \<open>
  The values a call of \<^verbatim>\<open>handleSend\<close> captures and its callbacks read later:
  \<^verbatim>\<open>conversationId\<close> and \<^verbatim>\<open>selectedModel\<close> of the render that ran it, and
  \<^verbatim>\<open>currentMessage\<close>.
\<close>

record closure =
  c_conversationId :: "jsstring option"
  currentMessage :: jsstring
  c_selectedModel :: jsstring

definition request_of :: "closure \<Rightarrow> chat_request" where
  "request_of c = build_request (c_conversationId c) (currentMessage c) (c_selectedModel c)"

subsection \<open>The state of the page\<close>

text \<open>
  The four \<^verbatim>\<open>useState\<close> variables and the route parameter, together with the
  calls the page has made: every call of \<^verbatim>\<open>sendMessageStream\<close>, in order, with
  the closure its callbacks read (\<open>streams\<close>); the numbers of those calls that have
  had their completion event, their error event or their rejection (\<open>ended\<close>); the
  calls of \<^verbatim>\<open>sendMessageMutation.mutate\<close> that have not settled (by number,
  \<open>mutation_count\<close> being the number of calls made so far); and the list of effects.
  The callbacks of a call stay callable after it has ended: the page has no guard that
  would ignore them.
\<close>

record page =
  conversationId :: "jsstring option"
  message :: jsstring
  selectedModel :: jsstring
  streamingMessage :: jsstring
  isStreaming :: bool
  streams :: "closure list"
  ended :: "nat list"
  mutations :: "nat list"
  mutation_count :: nat
  effects :: "effect list"

definition initial_page :: "jsstring option \<Rightarrow> page" where
  "initial_page cid =
     \<lparr> conversationId = cid, message = [], selectedModel = js ''auto'',
       streamingMessage = [], isStreaming = False, streams = [], ended = [],
       mutations = [], mutation_count = 0, effects = [] \<rparr>"

text \<open>
  \<^verbatim>\<open>sendMessageMutation.isPending\<close>: the mutation observer follows the latest call
  of \<^verbatim>\<open>mutate\<close>, and is pending while that call has not settled.
\<close>

definition isPending :: "page \<Rightarrow> bool" where
  "isPending p \<longleftrightarrow> 0 < mutation_count p \<and> (mutation_count p - 1) \<in> set (mutations p)"

definition emit :: "effect \<Rightarrow> page \<Rightarrow> page" where
  "emit e p = p\<lparr>effects := effects p @ [e]\<rparr>"

definition navigate_conversation :: "jsstring \<Rightarrow> page \<Rightarrow> page" where
  "navigate_conversation cid p =
     (emit (Navigate (js ''/app/c/'' @ cid)) p)\<lparr>conversationId := Some cid\<rparr>"

definition mutate :: "chat_request \<Rightarrow> page \<Rightarrow> page" where
  "mutate r p =
     (emit (SyncSend r) p)\<lparr>mutations := mutation_count p # mutations p,
                            mutation_count := mutation_count p + 1\<rparr>"

subsection \<open>ModelSelector\<close>

text \<open>The \<^verbatim>\<open>id\<close> fields of the four entries of \<^verbatim>\<open>models\<close>, in order.\<close>

definition models :: "jsstring list" where
  "models = [js ''auto'', js ''theory-specialist'', js ''code-specialist'',
             js ''math-specialist'']"

text \<open>The three example questions whose buttons call \<^verbatim>\<open>setMessage\<close>.\<close>

definition examples :: "jsstring list" where
  "examples = [js ''How do I perform feature engineering?'',
               js ''Explain random forests algorithm'',
               js ''What's the best way to handle missing values in a dataset?'']"

subsection \<open>handleSend and its callbacks\<close>

definition login_alert :: jsstring where
  "login_alert = js ''Please log in to send messages''"

definition stream_error_alert :: "js_error \<Rightarrow> jsstring" where
  "stream_error_alert e =
     js ''Error: '' @ or_else (error_message e) (js ''Failed to send message. Please try again.'')"

definition send_error_alert :: "js_error \<Rightarrow> jsstring" where
  "send_error_alert e =
     js ''Error: '' @
     or_else (error_message e) (js ''Failed to send message. Please check console for details.'')"

text \<open>
  \<open>handleSend user p\<close>: \<open>user\<close> says whether \<^verbatim>\<open>auth.getCurrentUser\<close> exists and
  returns a user. With a user, the call of \<^verbatim>\<open>sendMessageStream\<close> is opened with the
  closure of this call; its callbacks and its end arrive later, as steps of their own.
\<close>

definition handleSend :: "bool \<Rightarrow> page \<Rightarrow> page" where
  "handleSend user p =
     (if trim (message p) = [] \<or> isStreaming p then p
      else
        let c = \<lparr> c_conversationId = conversationId p, currentMessage = message p,
                  c_selectedModel = selectedModel p \<rparr>;
            p1 = p\<lparr>message := [], isStreaming := True, streamingMessage := []\<rparr>
        in if \<not> user then (emit (Alert login_alert) p1)\<lparr>isStreaming := False\<rparr>
           else (emit (StreamSend (request_of c)) p1)\<lparr>streams := streams p1 @ [c]\<rparr>)"

definition end_stream :: "nat \<Rightarrow> page \<Rightarrow> page" where
  "end_stream i p = p\<lparr>ended := i # ended p\<rparr>"

definition onMetadata :: "closure \<Rightarrow> jsstring option \<Rightarrow> page \<Rightarrow> page" where
  "onMetadata c cid p =
     (case cid of
        None \<Rightarrow> p
      | Some s \<Rightarrow>
          if \<not> truthy (c_conversationId c) \<and> truthy (Some s)
          then navigate_conversation s (emit (Invalidate Conversations) p)
          else p)"

definition onChunk :: "jsstring \<Rightarrow> page \<Rightarrow> page" where
  "onChunk chunk p = p\<lparr>streamingMessage := streamingMessage p @ chunk\<rparr>"

definition onComplete :: "closure \<Rightarrow> jsstring \<Rightarrow> page \<Rightarrow> page" where
  "onComplete c messageId p =
     emit (Invalidate Conversations)
       (emit (Invalidate (Conversation (c_conversationId c)))
          (p\<lparr>isStreaming := False, streamingMessage := []\<rparr>))"

definition onError :: "closure \<Rightarrow> js_error \<Rightarrow> page \<Rightarrow> page" where
  "onError c e p =
     mutate (request_of c)
       (emit (Alert (stream_error_alert e))
          (p\<lparr>isStreaming := False, streamingMessage := []\<rparr>))"

text \<open>
  An event of the \<open>i\<close>-th streaming call runs the callback of that call's closure,
  whether or not the call has ended before. The call is recorded as ended at its
  completion event, at its error event, and when it is rejected (the \<^verbatim>\<open>catch\<close>
  block of \<^verbatim>\<open>handleSend\<close>). A promise is rejected at most once; nothing here
  relies on that.
\<close>

definition on_event :: "nat \<Rightarrow> stream_event \<Rightarrow> page \<Rightarrow> page" where
  "on_event i ev p =
     (let c = streams p ! i in
      case ev of
        OnMetadata cid \<Rightarrow> onMetadata c cid p
      | OnChunk chunk \<Rightarrow> onChunk chunk p
      | OnComplete messageId \<Rightarrow> end_stream i (onComplete c messageId p)
      | OnError e \<Rightarrow> end_stream i (onError c e p))"

definition on_reject :: "nat \<Rightarrow> js_error \<Rightarrow> page \<Rightarrow> page" where
  "on_reject i e p =
     end_stream i
       (emit (Alert (send_error_alert e)) (p\<lparr>isStreaming := False, streamingMessage := []\<rparr>))"

text \<open>
  \<^verbatim>\<open>onSuccess\<close> of \<^verbatim>\<open>sendMessageMutation\<close>, with \<^verbatim>\<open>data.conversation_id\<close>;
  the mutation has no \<^verbatim>\<open>onError\<close> and no \<^verbatim>\<open>retry\<close> option.
\<close>

definition onSuccess :: "jsstring \<Rightarrow> page \<Rightarrow> page" where
  "onSuccess cid p =
     (let p1 = emit (Invalidate Conversations) (emit (Invalidate (Conversation (Some cid))) p)
      in if \<not> truthy (conversationId p) then navigate_conversation cid p1 else p1)"

definition settle :: "nat \<Rightarrow> jsstring option \<Rightarrow> page \<Rightarrow> page" where
  "settle k result p =
     (let p1 = p\<lparr>mutations := removeAll k (mutations p)\<rparr>
      in case result of None \<Rightarrow> p1 | Some cid \<Rightarrow> onSuccess cid p1)"

subsection \<open>What is rendered\<close>

definition input_disabled :: "page \<Rightarrow> bool" where
  "input_disabled p \<longleftrightarrow> isPending p \<or> isStreaming p"

definition button_disabled :: "page \<Rightarrow> bool" where
  "button_disabled p \<longleftrightarrow> isPending p \<or> isStreaming p \<or> trim (message p) = []"

datatype bubble = NoBubble | TypingDots | StreamingText jsstring

definition assistant_bubble :: "page \<Rightarrow> bubble" where
  "assistant_bubble p =
     (if isPending p \<or> isStreaming p
      then (if isStreaming p \<and> streamingMessage p \<noteq> [] then StreamingText (streamingMessage p)
            else TypingDots)
      else NoBubble)"

subsection \<open>Steps of the page\<close>

text \<open>
  What can happen to a mounted page. The user types into the input, clicks an example
  question, picks the \<open>i\<close>-th entry of the model menu, presses Enter in the input or
  clicks the send button. The components \<^verbatim>\<open>Input\<close> and \<^verbatim>\<open>Button\<close> are
  known by their use in the page only; they are taken to pass \<^verbatim>\<open>disabled\<close> on
  to the HTML element, so that a disabled input takes no typing and no key, and a
  disabled button no click. The example questions are rendered while the conversation has no
  messages; here they can be clicked at any time. The boolean of a submit is the
  \<open>user\<close> of \<open>handleSend\<close>. The environment delivers an event of a streaming
  call the page has made, rejects such a call, or settles a mutation (\<open>None\<close>: it
  failed; \<open>Some cid\<close>: it succeeded with that conversation id).
\<close>

datatype action =
    TypeText jsstring
  | ClickExample nat
  | SelectModel nat
  | PressEnter bool
  | ClickSend bool
  | StreamEvent nat stream_event
  | StreamRejects nat js_error
  | MutationSettles nat "jsstring option"

fun step :: "action \<Rightarrow> page \<Rightarrow> page" where
  "step (TypeText s) p = (if input_disabled p then p else p\<lparr>message := s\<rparr>)"
| "step (ClickExample i) p = (if i < length examples then p\<lparr>message := examples ! i\<rparr> else p)"
| "step (SelectModel i) p = (if i < length models then p\<lparr>selectedModel := models ! i\<rparr> else p)"
| "step (PressEnter user) p = (if input_disabled p then p else handleSend user p)"
| "step (ClickSend user) p = (if button_disabled p then p else handleSend user p)"
| "step (StreamEvent i ev) p = (if i < length (streams p) then on_event i ev p else p)"
| "step (StreamRejects i e) p = (if i < length (streams p) then on_reject i e p else p)"
| "step (MutationSettles k result) p = (if k \<in> set (mutations p) then settle k result p else p)"

fun run :: "action list \<Rightarrow> page \<Rightarrow> page" where
  "run [] p = p"
| "run (a # as) p = run as (step a p)"





subsection \<open>Requests sent, and what holds of every page\<close>

definition is_send :: "effect \<Rightarrow> bool" where
  "is_send e = (case e of StreamSend r \<Rightarrow> True | SyncSend r \<Rightarrow> True | _ \<Rightarrow> False)"

definition sends :: "page \<Rightarrow> effect list" where
  "sends p = filter is_send (effects p)"

text \<open>The request objects among a list of effects, streamed or synchronous.\<close>

fun requests :: "effect list \<Rightarrow> chat_request list" where
  "requests [] = []"
| "requests (StreamSend r # es) = r # requests es"
| "requests (SyncSend r # es) = r # requests es"
| "requests (e # es) = requests es"

text \<open>
  The steps after a send that do not submit again and are not the rejection of a call:
  any event of the \<open>i\<close>-th streaming call, a settling mutation, and what the user
  does besides submitting. \<open>is_stream_error\<close> picks the error events among them.
\<close>

fun after_send :: "nat \<Rightarrow> action \<Rightarrow> bool" where
  "after_send i (StreamEvent j ev) = (j = i)"
| "after_send i (StreamRejects j e) = False"
| "after_send i (PressEnter user) = False"
| "after_send i (ClickSend user) = False"
| "after_send i a = True"

fun is_stream_error :: "action \<Rightarrow> bool" where
  "is_stream_error (StreamEvent j (OnError e)) = True"
| "is_stream_error a = False"

text \<open>
  Two invariants of the page. \<open>requests_ok\<close>: the selected model, the model captured by
  every open stream and the model of every request sent are entries of \<open>models\<close>, every
  request sent has the fixed generation parameters, and no request sent and no captured
  message is blank. \<open>one_in_flight\<close>: only calls the page has made have ended, the
  streaming flag says whether a streaming call has not ended, at most one has not and
  then no mutation is unsettled, and an unsettled mutation is the latest one.
\<close>

definition closure_ok :: "closure \<Rightarrow> bool" where
  "closure_ok c \<longleftrightarrow> c_selectedModel c \<in> set models \<and> trim (currentMessage c) \<noteq> []"

definition request_ok :: "chat_request \<Rightarrow> bool" where
  "request_ok r \<longleftrightarrow>
     model (meta r) \<in> set models \<and> temperature (meta r) = 7 / 10 \<and> top_p (meta r) = 95 / 100
     \<and> max_tokens (meta r) = 2048 \<and> trim (req_message r) \<noteq> []"

definition requests_ok :: "page \<Rightarrow> bool" where
  "requests_ok p \<longleftrightarrow>
     selectedModel p \<in> set models
     \<and> (\<forall>c\<in>set (streams p). closure_ok c)
     \<and> (\<forall>r\<in>set (requests (effects p)). request_ok r)"


subsection \<open>Pages used as concrete inputs\<close>

text \<open>
  A fresh page of a new chat in which the user has typed \<^verbatim>\<open>hi\<close>; the same page
  after Enter was pressed and the chunk \<^verbatim>\<open>par\<close> has arrived; and a page on which
  the first example question was sent, the stream failed, the fallback is pending, and
  the user has clicked the first example question again.
\<close>

definition typed_hi :: page where
  "typed_hi = step (TypeText (js ''hi'')) (initial_page None)"

definition streaming_hi :: page where
  "streaming_hi = run [PressEnter True, StreamEvent 0 (OnChunk (js ''par''))] typed_hi"


section \<open>The request pipeline of the backend\<close>

text \<open>
  The backend (request schema, rate limiter, safety layer, router, chat endpoint) is
  described by the specification and by the project's documents only. Its parts are
  modelled here from the specification; what the specification leaves open (keyword
  lists, the confidence function, the refusal text, the cleaner, the collaborators) is a
  parameter.
\<close>

subsection \<open>ChatRequest\<close>

text \<open>
  Modelled from the spec: the validation of a ChatRequest at the boundary (the request
  schema of the backend). Message text of 1 to 10,000 characters, temperature in
  [0.0, 2.0], max_tokens in [1, 8192]; a request outside these bounds is not constructed.
\<close>

datatype validation_error = MessageLength | TemperatureRange | MaxTokensRange

definition validate_chat_request :: "chat_request \<Rightarrow> validation_error + chat_request" where
  "validate_chat_request r =
     (if length (req_message r) < 1 \<or> 10000 < length (req_message r) then Inl MessageLength
      else if temperature (meta r) < 0 \<or> 2 < temperature (meta r) then Inl TemperatureRange
      else if max_tokens (meta r) < 1 \<or> 8192 < max_tokens (meta r) then Inl MaxTokensRange
      else Inr r)"

subsection \<open>RateLimiter\<close>

text \<open>
  Modelled from the spec: the result of \<^verbatim>\<open>RateLimiter.check\<close>, which is
  \<^verbatim>\<open>{allowed, remaining, reset_at}\<close>. Time is in seconds.
\<close>

record rate_result =
  allowed :: bool
  remaining :: nat
  reset_at :: nat

text \<open>
  Modelled from the spec: the counter store of the rate limiter, one counter for each
  \<^verbatim>\<open>(identity, window_start)\<close>; a counter never used reads 0.
\<close>

type_synonym rate_store = "string \<times> nat \<Rightarrow> nat"

text \<open>
  Modelled from the spec: the start of the tumbling window that contains \<open>now\<close>.
\<close>

definition window_start :: "nat \<Rightarrow> nat \<Rightarrow> nat" where
  "window_start now window_duration = (now div window_duration) * window_duration"

text \<open>
  Modelled from the spec: \<^verbatim>\<open>check(key, limit, window_duration)\<close> of the rate limiter.
  One atomic increment of the counter of the current window; the request is allowed
  while the incremented count does not exceed the limit. When the store is unavailable
  (\<open>store_up\<close> is false) the request is allowed (fail-open) and nothing is counted.
\<close>

definition check ::
  "bool \<Rightarrow> rate_store \<Rightarrow> nat \<Rightarrow> string \<Rightarrow> nat \<Rightarrow> nat \<Rightarrow> rate_result \<times> rate_store" where
  "check store_up store now key limit window_duration =
     (let ws = window_start now window_duration;
          reset = ws + window_duration
      in if \<not> store_up
         then (\<lparr> allowed = True, remaining = limit, reset_at = reset \<rparr>, store)
         else
           let n = store (key, ws) + 1
           in (\<lparr> allowed = (n \<le> limit), remaining = limit - n, reset_at = reset \<rparr>,
               store((key, ws) := n)))"

text \<open>
  Modelled from the spec: the rejection of a request over its limit, a
  \<^verbatim>\<open>RateLimitExceeded\<close> condition with a retry-after hint derived from
  \<^verbatim>\<open>reset_at\<close>: the seconds left until the window ends.
\<close>

datatype rejection = RateLimitExceeded (retry_after: nat)

definition rate_limit_gate :: "nat \<Rightarrow> rate_result \<Rightarrow> rejection option" where
  "rate_limit_gate now res =
     (if allowed res then None else Some (RateLimitExceeded (reset_at res - now)))"

text \<open>
  Modelled from the spec: the requests of one key at the given times, checked one after
  the other against the same store.
\<close>

fun check_all ::
  "rate_store \<Rightarrow> string \<Rightarrow> nat \<Rightarrow> nat \<Rightarrow> nat list \<Rightarrow> rate_result list \<times> rate_store" where
  "check_all store key limit window_duration [] = ([], store)"
| "check_all store key limit window_duration (now # later) =
     (let (res, store1) = check True store now key limit window_duration;
          (rest, store2) = check_all store1 key limit window_duration later
      in (res # rest, store2))"

subsection \<open>Router\<close>

text \<open>
  Modelled from the spec: the fixed set of specialist endpoints, the model selector of a
  request (\<^verbatim>\<open>auto\<close> or a named specialist), the strategy tag and the RouterDecision.
\<close>

datatype endpoint = TheorySpecialist | CodeSpecialist | MathSpecialist

datatype model_selector = Auto | Named endpoint

datatype strategy = Explicit | Automatic

record router_decision =
  selected :: endpoint
  strategy :: strategy
  confidence :: real
  reasons :: "string list"

text \<open>
  Modelled from the spec: the search of the text for a token (rule 2 of the Router).
\<close>

fun starts_with :: "string \<Rightarrow> string \<Rightarrow> bool" where
  "starts_with [] s = True"
| "starts_with (c # cs) [] = False"
| "starts_with (c # cs) (d # ds) = (c = d \<and> starts_with cs ds)"

fun contains_token :: "string \<Rightarrow> string \<Rightarrow> bool" where
  "contains_token tok [] = (tok = [])"
| "contains_token tok (d # ds) = (starts_with tok (d # ds) \<or> contains_token tok ds)"

text \<open>
  Modelled from the spec: what the Router's heuristic depends on and the specification
  does not enumerate: the programming-indicative tokens, the math-indicative tokens, and
  the confidence as a function of the number of signal categories that matched.
\<close>

record heuristics =
  code_tokens :: "string list"
  math_tokens :: "string list"
  confidence_for :: "nat \<Rightarrow> real"

text \<open>
  Modelled from the spec: rules 2 to 4 of the Router. Code signals win over math signals,
  theory is the fallback; the reasons list every signal category that matched.
\<close>

definition classify_text :: "heuristics \<Rightarrow> string \<Rightarrow> router_decision" where
  "classify_text h s =
     (let code = list_ex (\<lambda>tok. contains_token tok s) (code_tokens h);
          math = list_ex (\<lambda>tok. contains_token tok s) (math_tokens h);
          signals = (if code then [''code''] else []) @ (if math then [''math''] else [])
      in \<lparr> selected = (if code then CodeSpecialist
                       else if math then MathSpecialist else TheorySpecialist),
           strategy = Automatic,
           confidence = confidence_for h (length signals),
           reasons = signals \<rparr>)"

text \<open>
  Modelled from the spec: \<^verbatim>\<open>decide(explicit_model, text)\<close> of the Router. Rule 1:
  a named specialist is selected directly, with strategy explicit, confidence 1.0 and
  the reason \<^verbatim>\<open>user override\<close>; otherwise the text is classified.
\<close>

definition decide :: "heuristics \<Rightarrow> model_selector option \<Rightarrow> string \<Rightarrow> router_decision" where
  "decide h explicit_model s =
     (case explicit_model of
        Some (Named e) \<Rightarrow>
          \<lparr> selected = e, strategy = Explicit, confidence = 1, reasons = [''user override''] \<rparr>
      | _ \<Rightarrow> classify_text h s)"

subsection \<open>SafetyClassifier\<close>

text \<open>
  Modelled from the spec: the SafetyVerdict and \<^verbatim>\<open>classify(text, direction)\<close>.
  The moderation collaborator returns the category labels of a text, or nothing when it
  is unavailable; any category present means not allowed, and unavailability is
  fail-open.
\<close>

datatype direction = InputSide | OutputSide

record safety_verdict =
  verdict_allowed :: bool
  labels :: "string list"
  source :: direction

definition classify ::
  "(string \<Rightarrow> string list option) \<Rightarrow> string \<Rightarrow> direction \<Rightarrow> safety_verdict" where
  "classify moderation s dir =
     (case moderation s of
        None \<Rightarrow> \<lparr> verdict_allowed = True, labels = [], source = dir \<rparr>
      | Some categories \<Rightarrow>
          \<lparr> verdict_allowed = (categories = []), labels = categories, source = dir \<rparr>)"

subsection \<open>ChatOrchestrator\<close>

text \<open>
  Modelled from the spec: the data of a pipeline run: the Principal, the request as the
  core sees it, the InferenceResult, the persisted Message, the settings (the two limits,
  the window and the fixed refusal text), and the collaborators the core calls: the
  availability of the rate-limit store, the moderation capability, the two calls of the
  inference client (synchronous and streaming, each giving nothing on
  \<^verbatim>\<open>InferenceError\<close>; a stream that completes gives its chunks put together
  and the final token counts), the cleaner, and the persistence collaborator (nothing
  on failure). A request is answered synchronously or as a stream.
\<close>

record principal =
  user_id :: string
  address :: string

record core_request =
  conversation :: "string option"
  user_text :: string
  explicit_model :: "model_selector option"
  gen_temperature :: real
  gen_max_tokens :: nat

record inference_result =
  raw_text :: string
  input_tokens :: nat
  output_tokens :: nat
  latency :: nat

datatype role = UserRole | AssistantRole

datatype delivery = Synchronous | Streaming

record stored_message =
  msg_role :: role
  content :: string
  tokens_in :: nat
  tokens_out :: nat
  msg_latency :: nat
  safety_labels :: "string list"
  decision :: "router_decision option"

record settings =
  user_limit :: nat
  ip_limit :: nat
  window_duration :: nat
  refusal_message :: string

record collaborators =
  store_up :: bool
  moderation :: "string \<Rightarrow> string list option"
  invoke :: "endpoint \<Rightarrow> core_request \<Rightarrow> inference_result option"
  stream :: "endpoint \<Rightarrow> core_request \<Rightarrow> inference_result option"
  clean :: "string \<Rightarrow> string"
  save_message :: "string option \<Rightarrow> stored_message \<Rightarrow> nat option"

text \<open>
  Modelled from the spec: what a run of the pipeline leaves behind: the state it ended
  in (a terminal failure state or \<^verbatim>\<open>Responded\<close> with the message id), the calls
  it made to its components and collaborators in order, the rate-limit store, the
  InferenceResult if one was produced, and the Messages persisted.
\<close>

datatype call =
    RateLimiterCheck string
  | SafetyClassify direction
  | RouterDecide
  | InferenceInvoke endpoint
  | InferenceStream endpoint
  | CleanerClean
  | PersistenceSave role

datatype final_state =
    RateLimited nat
  | InputBlocked "string list"
  | InferenceFailed
  | PersistFailed
  | Responded nat

record pipeline_run =
  final :: final_state
  calls :: "call list"
  store_after :: rate_store
  produced :: "inference_result option"
  persisted :: "stored_message list"

text \<open>
  Modelled from the spec: a run that ends in a terminal failure state before any
  InferenceResult exists; nothing is persisted.
\<close>

definition failed :: "final_state \<Rightarrow> call list \<Rightarrow> rate_store \<Rightarrow> pipeline_run" where
  "failed st cs store =
     \<lparr> final = st, calls = cs, store_after = store, produced = None, persisted = [] \<rparr>"

text \<open>
  Modelled from the spec: the persistence step: the user Message and the assistant
  Message are saved; a failure of either is \<^verbatim>\<open>PersistFailed\<close>, and a failed
  pipeline persists no Message.
\<close>

definition persist_stage ::
  "collaborators \<Rightarrow> core_request \<Rightarrow> stored_message \<Rightarrow> stored_message \<Rightarrow> inference_result
   \<Rightarrow> call list \<Rightarrow> rate_store \<Rightarrow> pipeline_run" where
  "persist_stage env req question answer res cs store =
     (case save_message env (conversation req) question of
        None \<Rightarrow>
          \<lparr> final = PersistFailed, calls = cs @ [PersistenceSave UserRole],
            store_after = store, produced = Some res, persisted = [] \<rparr>
      | Some qid \<Rightarrow>
          (case save_message env (conversation req) answer of
             None \<Rightarrow>
               \<lparr> final = PersistFailed,
                 calls = cs @ [PersistenceSave UserRole, PersistenceSave AssistantRole],
                 store_after = store, produced = Some res, persisted = [] \<rparr>
           | Some mid \<Rightarrow>
               \<lparr> final = Responded mid,
                 calls = cs @ [PersistenceSave UserRole, PersistenceSave AssistantRole],
                 store_after = store, produced = Some res, persisted = [question, answer] \<rparr>))"

text \<open>
  Modelled from the spec: the inference step. A synchronous request invokes the
  inference client once. A streaming request streams; when the stream fails, the
  orchestrator falls back once to a synchronous invoke before giving up.
\<close>

definition infer ::
  "collaborators \<Rightarrow> delivery \<Rightarrow> endpoint \<Rightarrow> core_request
   \<Rightarrow> inference_result option \<times> call list" where
  "infer env how e req =
     (case how of
        Synchronous \<Rightarrow> (invoke env e req, [InferenceInvoke e])
      | Streaming \<Rightarrow>
          (case stream env e req of
             Some res \<Rightarrow> (Some res, [InferenceStream e])
           | None \<Rightarrow> (invoke env e req, [InferenceStream e, InferenceInvoke e])))"

text \<open>
  Modelled from the spec: the steps after the input-side safety check: the Router
  decides, the inference step runs, the output is cleaned and checked, a blocked output
  is replaced by the refusal text, and the exchange is persisted.
\<close>

definition inference_stage ::
  "settings \<Rightarrow> heuristics \<Rightarrow> collaborators \<Rightarrow> delivery \<Rightarrow> core_request \<Rightarrow> safety_verdict
   \<Rightarrow> call list \<Rightarrow> rate_store \<Rightarrow> pipeline_run" where
  "inference_stage cfg h env how req verdict_in cs store =
     (let d = decide h (explicit_model req) (user_text req);
          (outcome, made) = infer env how (selected d) req;
          cs3 = cs @ [RouterDecide] @ made
      in case outcome of
           None \<Rightarrow> failed InferenceFailed cs3 store
         | Some res \<Rightarrow>
             let cleaned = clean env (raw_text res);
                 verdict_out = classify (moderation env) cleaned OutputSide;
                 shown = (if verdict_allowed verdict_out then cleaned
                          else refusal_message cfg);
                 question = \<lparr> msg_role = UserRole, content = user_text req, tokens_in = 0,
                              tokens_out = 0, msg_latency = 0,
                              safety_labels = labels verdict_in, decision = None \<rparr>;
                 answer = \<lparr> msg_role = AssistantRole, content = shown,
                            tokens_in = input_tokens res, tokens_out = output_tokens res,
                            msg_latency = latency res,
                            safety_labels = labels verdict_out, decision = Some d \<rparr>
             in persist_stage env req question answer res
                  (cs3 @ [CleanerClean, SafetyClassify OutputSide]) store)"

text \<open>
  Modelled from the spec: \<^verbatim>\<open>send(principal, ChatRequest)\<close> of the
  ChatOrchestrator, synchronous or streaming. The two rate checks run first (user key,
  then IP key); exceeding either limit ends the run in \<^verbatim>\<open>RateLimited\<close>. Then
  the input-side safety check; a block ends the run in \<^verbatim>\<open>InputBlocked\<close>. Then
  the remaining steps.
\<close>

definition send ::
  "settings \<Rightarrow> heuristics \<Rightarrow> collaborators \<Rightarrow> rate_store \<Rightarrow> nat \<Rightarrow> principal \<Rightarrow> delivery
   \<Rightarrow> core_request \<Rightarrow> pipeline_run" where
  "send cfg h env store now who how req =
     (let (by_user, store1) =
            check (store_up env) store now (''user:'' @ user_id who) (user_limit cfg)
              (window_duration cfg);
          (by_ip, store2) =
            check (store_up env) store1 now (''ip:'' @ address who) (ip_limit cfg)
              (window_duration cfg);
          cs1 = [RateLimiterCheck (''user:'' @ user_id who),
                 RateLimiterCheck (''ip:'' @ address who)]
      in case rate_limit_gate now by_user of
           Some (RateLimitExceeded n) \<Rightarrow> failed (RateLimited n) cs1 store2
         | None \<Rightarrow>
             (case rate_limit_gate now by_ip of
                Some (RateLimitExceeded n) \<Rightarrow> failed (RateLimited n) cs1 store2
              | None \<Rightarrow>
                  let verdict_in = classify (moderation env) (user_text req) InputSide;
                      cs2 = cs1 @ [SafetyClassify InputSide]
                  in if \<not> verdict_allowed verdict_in
                     then failed (InputBlocked (labels verdict_in)) cs2 store2
                     else inference_stage cfg h env how req verdict_in cs2 store2))"

text \<open>
  Modelled from the spec: the two ways a request fails before inference: one of the two
  rate checks does not allow it, or the input-side verdict does not allow it.
\<close>

definition rate_rejected ::
  "settings \<Rightarrow> collaborators \<Rightarrow> rate_store \<Rightarrow> nat \<Rightarrow> principal \<Rightarrow> bool" where
  "rate_rejected cfg env store now who =
     (let (by_user, store1) =
            check (store_up env) store now (''user:'' @ user_id who) (user_limit cfg)
              (window_duration cfg);
          (by_ip, store2) =
            check (store_up env) store1 now (''ip:'' @ address who) (ip_limit cfg)
              (window_duration cfg)
      in \<not> allowed by_user \<or> \<not> allowed by_ip)"

definition input_blocked :: "collaborators \<Rightarrow> core_request \<Rightarrow> bool" where
  "input_blocked env req \<longleftrightarrow>
     \<not> verdict_allowed (classify (moderation env) (user_text req) InputSide)"

definition is_inference_or_save :: "call \<Rightarrow> bool" where
  "is_inference_or_save c =
     (case c of
        InferenceInvoke e \<Rightarrow> True
      | InferenceStream e \<Rightarrow> True
      | PersistenceSave r \<Rightarrow> True
      | _ \<Rightarrow> False)"

subsection \<open>Concrete inputs of the pipeline\<close>

text \<open>
  Settings with the documented limits (60 per user and 10 per address in a minute), a
  heuristic with one token of each kind, a principal and a request, and two
  environments whose synchronous inference and persistence always succeed and whose
  streams always fail: in the first the moderation capability flags every text, in the
  second it flags none.
\<close>

definition example_settings :: settings where
  "example_settings =
     \<lparr> user_limit = 60, ip_limit = 10, window_duration = 60,
       refusal_message = ''refused'' \<rparr>"

definition example_heuristics :: heuristics where
  "example_heuristics =
     \<lparr> code_tokens = [''function''], math_tokens = [''calculate''],
       confidence_for = (\<lambda>n. 1 / 2) \<rparr>"

definition example_principal :: principal where
  "example_principal = \<lparr> user_id = ''u1'', address = ''10.0.0.1'' \<rparr>"

definition example_request :: core_request where
  "example_request =
     \<lparr> conversation = None, user_text = ''calculate the mean'', explicit_model = None,
       gen_temperature = 7 / 10, gen_max_tokens = 2048 \<rparr>"

definition answering :: "endpoint \<Rightarrow> core_request \<Rightarrow> inference_result option" where
  "answering e req =
     Some \<lparr> raw_text = ''42'', input_tokens = 3, output_tokens = 1, latency = 5 \<rparr>"

definition flagging_env :: collaborators where
  "flagging_env =
     \<lparr> store_up = True, moderation = (\<lambda>s. Some [''violence'']), invoke = answering,
       stream = (\<lambda>e r. None),
       clean = (\<lambda>s. s), save_message = (\<lambda>c m. Some 7) \<rparr>"

definition permissive_env :: collaborators where
  "permissive_env =
     \<lparr> store_up = True, moderation = (\<lambda>s. Some []), invoke = answering,
       stream = (\<lambda>e r. None),
       clean = (\<lambda>s. s), save_message = (\<lambda>c m. Some 7) \<rparr>"

definition empty_store :: rate_store where
  "empty_store = (\<lambda>k. 0)"

definition full_store :: rate_store where
  "full_store = (\<lambda>k. 60)"

section \<open>Properties of the chat page\<close>

subsection \<open>Evaluation of the concrete pages\<close>

lemma typed_hi_eval:
  "typed_hi = (initial_page None)\<lparr>message := js ''hi''\<rparr>"
  by (simp add: typed_hi_def initial_page_def input_disabled_def isPending_def)

lemma streaming_hi_eval:
  "streaming_hi =
     \<lparr> conversationId = None, message = [], selectedModel = js ''auto'',
       streamingMessage = js ''par'', isStreaming = True,
       streams = [\<lparr> c_conversationId = None, currentMessage = js ''hi'',
                    c_selectedModel = js ''auto'' \<rparr>],
       ended = [], mutations = [], mutation_count = 0,
       effects = [StreamSend (build_request None (js ''hi'') (js ''auto''))] \<rparr>"
  by (simp add: streaming_hi_def typed_hi_eval initial_page_def input_disabled_def isPending_def
      handleSend_def trim_def isWhiteSpace_def emit_def request_of_def on_event_def onChunk_def
      Let_def js_def)


subsection \<open>Runs of the page\<close>

lemma run_append: "run (as @ bs) p = run bs (run as p)"
  by (induction as arbitrary: p) auto

lemma run_chunks:
  "i < length (streams p) \<Longrightarrow>
   run (map (\<lambda>ch. StreamEvent i (OnChunk ch)) chunks) p
     = p\<lparr>streamingMessage := streamingMessage p @ concat chunks\<rparr>"
proof (induction chunks arbitrary: p)
  case Nil
  then show ?case by simp
next
  case (Cons ch chunks)
  then show ?case by (simp add: on_event_def onChunk_def)
qed

lemma onMetadata_keeps:
  "streams (onMetadata c cid p) = streams p"
  "streamingMessage (onMetadata c cid p) = streamingMessage p"
  "isStreaming (onMetadata c cid p) = isStreaming p"
  "mutations (onMetadata c cid p) = mutations p"
  "mutation_count (onMetadata c cid p) = mutation_count p"
  "sends (onMetadata c cid p) = sends p"
  by (simp_all add: onMetadata_def navigate_conversation_def emit_def sends_def is_send_def
      split: option.splits)

lemma handleSend_sends:
  assumes "trim (message p) \<noteq> []" and "\<not> isStreaming p"
  shows "handleSend True p =
           p\<lparr>message := [], isStreaming := True, streamingMessage := [],
             effects := effects p @ [StreamSend (build_request (conversationId p) (message p)
                                      (selectedModel p))],
             streams := streams p @ [\<lparr> c_conversationId = conversationId p,
                                       currentMessage = message p,
                                       c_selectedModel = selectedModel p \<rparr>]\<rparr>"
  using assms by (simp add: handleSend_def Let_def emit_def request_of_def)

lemma after_send_step:
  assumes "after_send i a" and "i < length (streams p)"
  shows "streams (step a p) = streams p
       \<and> sends (step a p)
           = sends p @ (if is_stream_error a then [SyncSend (request_of (streams p ! i))] else [])"
proof (cases a)
  case (StreamEvent j ev)
  then have j: "j = i"
    using assms(1) by simp
  show ?thesis
  proof (cases ev)
    case (OnMetadata cid)
    then show ?thesis
      using StreamEvent j assms(2) by (simp add: on_event_def onMetadata_keeps)
  next
    case (OnChunk ch)
    then show ?thesis
      using StreamEvent j assms(2) by (simp add: on_event_def onChunk_def sends_def)
  next
    case (OnComplete mid)
    then show ?thesis
      using StreamEvent j assms(2)
      by (simp add: on_event_def onComplete_def end_stream_def emit_def sends_def is_send_def)
  next
    case (OnError e)
    then show ?thesis
      using StreamEvent j assms(2)
      by (simp add: on_event_def onError_def mutate_def end_stream_def emit_def sends_def
          is_send_def)
  qed
next
  case (TypeText t)
  then show ?thesis by (simp add: sends_def)
next
  case (ClickExample k)
  then show ?thesis by (simp add: sends_def)
next
  case (SelectModel k)
  then show ?thesis by (simp add: sends_def)
next
  case (PressEnter u)
  then show ?thesis using assms(1) by simp
next
  case (ClickSend u)
  then show ?thesis using assms(1) by simp
next
  case (StreamRejects j e)
  then show ?thesis using assms(1) by simp
next
  case (MutationSettles k r)
  then show ?thesis
    by (cases r)
       (simp_all add: settle_def onSuccess_def navigate_conversation_def emit_def sends_def
          is_send_def Let_def)
qed

lemma after_send_run:
  assumes "\<forall>a\<in>set as. after_send i a" and "i < length (streams p)"
  shows "streams (run as p) = streams p
       \<and> sends (run as p)
           = sends p @ replicate (length (filter is_stream_error as))
                         (SyncSend (request_of (streams p ! i)))"
  using assms
proof (induction as arbitrary: p)
  case Nil
  then show ?case by simp
next
  case (Cons a as)
  have a: "streams (step a p) = streams p"
    "sends (step a p)
       = sends p @ (if is_stream_error a then [SyncSend (request_of (streams p ! i))] else [])"
    using after_send_step [of i a p] Cons.prems by simp_all
  have "streams (run as (step a p)) = streams (step a p)
      \<and> sends (run as (step a p))
          = sends (step a p) @ replicate (length (filter is_stream_error as))
                                 (SyncSend (request_of (streams (step a p) ! i)))"
    using Cons.IH [of "step a p"] Cons.prems a(1) by simp
  then show ?case
    using a by simp
qed

subsection \<open>Every request sent is well formed\<close>

lemma requests_append: "requests (es @ fs) = requests es @ requests fs"
  by (induction es rule: requests.induct) auto

lemma request_of_ok: "closure_ok c \<Longrightarrow> request_ok (request_of c)"
  by (simp add: closure_ok_def request_ok_def request_of_def build_request_def)

lemma end_stream_requests_ok: "requests_ok (end_stream i p) = requests_ok p"
  by (simp add: end_stream_def requests_ok_def)

lemma handleSend_requests_ok:
  assumes "requests_ok p"
  shows "requests_ok (handleSend user p)"
  using assms
  by (auto simp: handleSend_def Let_def emit_def requests_ok_def requests_append closure_ok_def
      intro!: request_of_ok)

lemma on_event_requests_ok:
  assumes "requests_ok p" and "i < length (streams p)"
  shows "requests_ok (on_event i ev p)"
proof -
  have c: "closure_ok (streams p ! i)"
    using assms by (simp add: requests_ok_def)
  show ?thesis
  proof (cases ev)
    case (OnMetadata cid)
    then show ?thesis
      using assms(1)
      by (simp add: on_event_def onMetadata_def navigate_conversation_def emit_def requests_ok_def
          requests_append split: option.splits)
  next
    case (OnChunk ch)
    then show ?thesis
      using assms(1) by (simp add: on_event_def onChunk_def requests_ok_def)
  next
    case (OnComplete mid)
    have "requests_ok (onComplete (streams p ! i) mid p)"
      using assms(1) by (simp add: onComplete_def emit_def requests_ok_def requests_append)
    then show ?thesis
      using OnComplete by (simp add: on_event_def end_stream_requests_ok)
  next
    case (OnError e)
    have "requests_ok (onError (streams p ! i) e p)"
      using assms(1) request_of_ok [OF c]
      by (simp add: onError_def mutate_def emit_def requests_ok_def requests_append)
    then show ?thesis
      using OnError by (simp add: on_event_def end_stream_requests_ok)
  qed
qed

lemma on_reject_requests_ok:
  assumes "requests_ok p"
  shows "requests_ok (on_reject i e p)"
proof -
  have "requests_ok (emit (Alert (send_error_alert e))
                       (p\<lparr>isStreaming := False, streamingMessage := []\<rparr>))"
    using assms by (simp add: emit_def requests_ok_def requests_append)
  then show ?thesis
    by (simp only: on_reject_def end_stream_requests_ok)
qed

lemma settle_requests_ok:
  assumes "requests_ok p"
  shows "requests_ok (settle k result p)"
  using assms
  by (cases result)
     (simp_all add: settle_def onSuccess_def navigate_conversation_def emit_def requests_ok_def
        requests_append Let_def)

lemma step_requests_ok:
  assumes "requests_ok p"
  shows "requests_ok (step a p)"
proof (cases a)
  case (SelectModel i)
  then show ?thesis using assms by (simp add: requests_ok_def)
next
  case (TypeText s)
  then show ?thesis using assms by (simp add: requests_ok_def)
next
  case (ClickExample i)
  then show ?thesis using assms by (simp add: requests_ok_def)
next
  case (PressEnter u)
  then show ?thesis using assms by (simp add: handleSend_requests_ok)
next
  case (ClickSend u)
  then show ?thesis using assms by (simp add: handleSend_requests_ok)
next
  case (StreamEvent i ev)
  then show ?thesis using assms by (simp add: on_event_requests_ok)
next
  case (StreamRejects i e)
  then show ?thesis using assms by (simp add: on_reject_requests_ok)
next
  case (MutationSettles k result)
  then show ?thesis using assms by (simp add: settle_requests_ok)
qed

lemma run_requests_ok: "requests_ok p \<Longrightarrow> requests_ok (run as p)"
  by (induction as arbitrary: p) (simp_all add: step_requests_ok)

lemma initial_requests_ok: "requests_ok (initial_page cid)"
  by (simp add: requests_ok_def initial_page_def models_def)

lemma sent_requests_ok:
  "r \<in> set (requests (effects (run as (initial_page cid)))) \<Longrightarrow> request_ok r"
  using run_requests_ok [OF initial_requests_ok, of as cid] by (simp add: requests_ok_def)

lemma trim_Nil_iff: "trim s = [] \<longleftrightarrow> (\<forall>c\<in>set s. isWhiteSpace c)"
proof
  assume "trim s = []"
  then have a: "\<forall>c\<in>set (dropWhile isWhiteSpace s). isWhiteSpace c"
    by (simp add: trim_def dropWhile_eq_Nil_conv)
  have "dropWhile isWhiteSpace s = []"
  proof (rule ccontr)
    assume ne: "dropWhile isWhiteSpace s \<noteq> []"
    then have "\<not> isWhiteSpace (hd (dropWhile isWhiteSpace s))"
      by (rule hd_dropWhile)
    moreover have "hd (dropWhile isWhiteSpace s) \<in> set (dropWhile isWhiteSpace s)"
      using ne by simp
    ultimately show False
      using a by blast
  qed
  then show "\<forall>c\<in>set s. isWhiteSpace c"
    by (simp add: dropWhile_eq_Nil_conv)
next
  assume "\<forall>c\<in>set s. isWhiteSpace c"
  then have e: "dropWhile isWhiteSpace s = []"
    by (simp add: dropWhile_eq_Nil_conv)
  show "trim s = []"
    unfolding trim_def e by simp
qed

subsection \<open>At most one send is in flight\<close>


















subsection \<open>The fallback after a failed stream\<close>

text \<open>
  Claim C1 says that the page falls back whenever a streaming send fails. A streaming
  send also fails when the call of \<^verbatim>\<open>sendMessageStream\<close> is rejected; then the
  catch block of \<open>handleSend\<close> runs, and the synchronous mutation is not called.
\<close>

theorem rejected_stream_has_no_fallback:
  "sends (step (StreamRejects 0 (JsError None)) (handleSend True typed_hi))
     = [StreamSend (build_request None (js ''hi'') (js ''auto''))]
   \<and> \<not> isStreaming (step (StreamRejects 0 (JsError None)) (handleSend True typed_hi))
   \<and> mutations (step (StreamRejects 0 (JsError None)) (handleSend True typed_hi)) = []"
proof -
  have t: "trim (js ''hi'') \<noteq> []"
    by (simp add: trim_def isWhiteSpace_def js_def)
  show ?thesis
    using t
    by (simp add: typed_hi_eval initial_page_def handleSend_def Let_def emit_def request_of_def
        on_reject_def end_stream_def sends_def is_send_def)
qed

text \<open>
  Claim C1, for the failure the stream reports. After \<open>handleSend\<close> has started a
  stream, whatever events the stream delivers, whatever mutations settle (with success
  or failure) and whatever the user does besides submitting, the page has called the
  synchronous mutation once for each error event of the stream and never otherwise: so
  exactly once when the stream reports one error. Each of these calls carries the
  request that was streamed: the same message text, model, temperature, top_p and
  max_tokens.
\<close>

theorem stream_error_falls_back_once:
  assumes "trim (message p) \<noteq> []" and "\<not> isStreaming p"
      and "\<forall>a\<in>set as. after_send (length (streams p)) a"
  shows "let r = build_request (conversationId p) (message p) (selectedModel p);
             q = run as (handleSend True p)
         in sends q
              = sends p @ StreamSend r # replicate (length (filter is_stream_error as)) (SyncSend r)
          \<and> req_message r = message p
          \<and> meta r = \<lparr> model = selectedModel p, mode = js ''chat'', temperature = 7 / 10,
                        top_p = 95 / 100, max_tokens = 2048 \<rparr>"
proof -
  let ?i = "length (streams p)"
  let ?r = "build_request (conversationId p) (message p) (selectedModel p)"
  let ?p1 = "handleSend True p"
  have p1: "?i < length (streams ?p1)"
    "streams ?p1 ! ?i = \<lparr> c_conversationId = conversationId p, currentMessage = message p,
                          c_selectedModel = selectedModel p \<rparr>"
    "sends ?p1 = sends p @ [StreamSend ?r]"
    by (simp_all add: handleSend_sends [OF assms(1,2)] sends_def is_send_def)
  have "sends (run as ?p1)
          = sends ?p1 @ replicate (length (filter is_stream_error as))
                          (SyncSend (request_of (streams ?p1 ! ?i)))"
    using after_send_run [OF assms(3) p1(1)] by simp
  then have q: "sends (run as ?p1)
          = sends p @ StreamSend ?r # replicate (length (filter is_stream_error as)) (SyncSend ?r)"
    by (simp add: p1 request_of_def)
  have m: "req_message ?r = message p"
          "meta ?r = \<lparr> model = selectedModel p, mode = js ''chat'', temperature = 7 / 10,
                        top_p = 95 / 100, max_tokens = 2048 \<rparr>"
    by (simp_all add: build_request_def)
  show ?thesis
    unfolding Let_def using q m by blast
qed

theorem stream_error_falls_back_once_witness:
  "trim (message typed_hi) \<noteq> [] \<and> \<not> isStreaming typed_hi
   \<and> list_all (after_send 0)
        [StreamEvent 0 (OnMetadata (Some (js ''c1''))), SelectModel 2,
         StreamEvent 0 (OnChunk (js ''par'')), StreamEvent 0 (OnError (JsError None)),
         MutationSettles 0 None]
   \<and> sends (run [StreamEvent 0 (OnMetadata (Some (js ''c1''))), SelectModel 2,
                  StreamEvent 0 (OnChunk (js ''par'')), StreamEvent 0 (OnError (JsError None)),
                  MutationSettles 0 None]
               (handleSend True typed_hi))
       = [StreamSend (build_request None (js ''hi'') (js ''auto'')),
          SyncSend (build_request None (js ''hi'') (js ''auto''))]"
proof -
  have h1: "trim (message typed_hi) \<noteq> []"
    by (simp add: typed_hi_eval trim_def isWhiteSpace_def js_def)
  have h2: "\<not> isStreaming typed_hi"
    by (simp add: typed_hi_eval initial_page_def)
  have v: "length (streams typed_hi) = 0" "sends typed_hi = []" "conversationId typed_hi = None"
    "message typed_hi = js ''hi''" "selectedModel typed_hi = js ''auto''"
    by (simp_all add: typed_hi_eval initial_page_def sends_def)
  have h3: "\<forall>a\<in>set [StreamEvent 0 (OnMetadata (Some (js ''c1''))), SelectModel 2,
                        StreamEvent 0 (OnChunk (js ''par'')),
                        StreamEvent 0 (OnError (JsError None)), MutationSettles 0 None].
              after_send (length (streams typed_hi)) a"
    by (simp add: v)
  show ?thesis
    using h1 h2 h3 stream_error_falls_back_once [OF h1 h2 h3]
    by (simp add: Let_def v del: step.simps run.simps)
qed

subsection \<open>The text shown while streaming\<close>

text \<open>
  Claim C8. After \<open>handleSend\<close> has started a stream, and the stream has delivered its
  metadata event and then any chunks, the streaming buffer is the concatenation of the
  chunks in the order of arrival, the streaming flag is on, and the assistant bubble
  shows that text (the typing dots while it is still empty). The completion event then
  empties the buffer and turns the flag off.
\<close>

theorem streaming_text_is_concatenation:
  assumes "trim (message p) \<noteq> []" and "\<not> isStreaming p"
  shows "let i = length (streams p);
             q = run (StreamEvent i (OnMetadata cid) # map (\<lambda>ch. StreamEvent i (OnChunk ch)) chunks)
                   (handleSend True p)
         in streamingMessage q = concat chunks
          \<and> isStreaming q
          \<and> assistant_bubble q
              = (if concat chunks = [] then TypingDots else StreamingText (concat chunks))
          \<and> streamingMessage (step (StreamEvent i (OnComplete mid)) q) = []
          \<and> \<not> isStreaming (step (StreamEvent i (OnComplete mid)) q)"
proof -
  let ?i = "length (streams p)"
  let ?p1 = "step (StreamEvent ?i (OnMetadata cid)) (handleSend True p)"
  let ?q = "run (StreamEvent ?i (OnMetadata cid) # map (\<lambda>ch. StreamEvent ?i (OnChunk ch)) chunks)
              (handleSend True p)"
  have hs: "?i < length (streams (handleSend True p))"
    by (simp add: handleSend_sends [OF assms])
  have p1: "streams ?p1 = streams (handleSend True p)" "streamingMessage ?p1 = []"
    "isStreaming ?p1"
    using hs by (simp_all add: on_event_def onMetadata_keeps handleSend_sends [OF assms])
  have len: "?i < length (streams ?p1)"
    using hs p1(1) by simp
  have "?q = run (map (\<lambda>ch. StreamEvent ?i (OnChunk ch)) chunks) ?p1"
    by (simp only: run.simps)
  then have q: "?q = ?p1\<lparr>streamingMessage := streamingMessage ?p1 @ concat chunks\<rparr>"
    using run_chunks [OF len, of chunks] by simp
  have a: "streamingMessage ?q = concat chunks" "isStreaming ?q" "?i < length (streams ?q)"
    unfolding q using p1 len by simp_all
  have b: "assistant_bubble ?q
             = (if concat chunks = [] then TypingDots else StreamingText (concat chunks))"
    using a(1,2) unfolding assistant_bubble_def by simp
  have c: "streamingMessage (step (StreamEvent ?i (OnComplete mid)) ?q) = []"
          "\<not> isStreaming (step (StreamEvent ?i (OnComplete mid)) ?q)"
    using a(3) unfolding step.simps
    by (simp_all add: on_event_def onComplete_def end_stream_def emit_def)
  show ?thesis
    unfolding Let_def using a(1,2) b c by blast
qed

theorem streaming_text_is_concatenation_witness:
  "trim (message typed_hi) \<noteq> [] \<and> \<not> isStreaming typed_hi
   \<and> streamingMessage
        (run [StreamEvent 0 (OnMetadata (Some (js ''c1''))), StreamEvent 0 (OnChunk (js ''Hel'')),
              StreamEvent 0 (OnChunk (js ''lo''))] (handleSend True typed_hi)) = js ''Hello''
   \<and> assistant_bubble
        (run [StreamEvent 0 (OnMetadata (Some (js ''c1''))), StreamEvent 0 (OnChunk (js ''Hel'')),
              StreamEvent 0 (OnChunk (js ''lo''))] (handleSend True typed_hi))
       = StreamingText (js ''Hello'')
   \<and> streamingMessage
        (step (StreamEvent 0 (OnComplete (js ''m1'')))
          (run [StreamEvent 0 (OnMetadata (Some (js ''c1''))),
                StreamEvent 0 (OnChunk (js ''Hel'')), StreamEvent 0 (OnChunk (js ''lo''))]
             (handleSend True typed_hi))) = []
   \<and> \<not> isStreaming
        (step (StreamEvent 0 (OnComplete (js ''m1'')))
          (run [StreamEvent 0 (OnMetadata (Some (js ''c1''))),
                StreamEvent 0 (OnChunk (js ''Hel'')), StreamEvent 0 (OnChunk (js ''lo''))]
             (handleSend True typed_hi)))"
proof -
  have h1: "trim (message typed_hi) \<noteq> []"
    by (simp add: typed_hi_eval trim_def isWhiteSpace_def js_def)
  have h2: "\<not> isStreaming typed_hi"
    by (simp add: typed_hi_eval initial_page_def)
  have v: "length (streams typed_hi) = 0"
    by (simp add: typed_hi_eval initial_page_def)
  have c: "concat [js ''Hel'', js ''lo''] = js ''Hello''" "js ''Hello'' \<noteq> []"
    by (simp_all add: js_def)
  show ?thesis
    using h1 h2
      streaming_text_is_concatenation [OF h1 h2, of "Some (js ''c1'')" "[js ''Hel'', js ''lo'']"
        "js ''m1''"]
    unfolding Let_def v c(1) list.map by (simp add: c(2) del: step.simps run.simps)
qed

subsection \<open>A failed stream\<close>

text \<open>
  Claim C9. When an open stream reports an error, the page empties the streaming buffer,
  turns the streaming flag off and alerts the user with the error's message (then it
  starts the fallback send). A rejected streaming call does the same, with its own
  alert and no fallback. A completed stream alerts nothing: it only invalidates the two
  queries. So what the page does on a failed stream differs from what it does on a
  completed one, whatever partial text had been accumulated.
\<close>

theorem stream_error_is_explicit:
  assumes "i < length (streams p)"
  shows "streamingMessage (step (StreamEvent i (OnError e)) p) = []
       \<and> \<not> isStreaming (step (StreamEvent i (OnError e)) p)
       \<and> effects (step (StreamEvent i (OnError e)) p)
           = effects p @ [Alert (stream_error_alert e), SyncSend (request_of (streams p ! i))]
       \<and> streamingMessage (step (StreamRejects i e) p) = []
       \<and> \<not> isStreaming (step (StreamRejects i e) p)
       \<and> effects (step (StreamRejects i e) p) = effects p @ [Alert (send_error_alert e)]
       \<and> effects (step (StreamEvent i (OnComplete m)) p)
           = effects p @ [Invalidate (Conversation (c_conversationId (streams p ! i))),
                          Invalidate Conversations]"
  using assms
  by (simp add: on_event_def onError_def onComplete_def on_reject_def end_stream_def
      mutate_def emit_def)

theorem stream_error_is_explicit_witness:
  "0 < length (streams streaming_hi)
   \<and> streamingMessage streaming_hi = js ''par''
   \<and> streamingMessage
       (step (StreamEvent 0 (OnError (JsError (Some (js ''boom''))))) streaming_hi) = []
   \<and> \<not> isStreaming
       (step (StreamEvent 0 (OnError (JsError (Some (js ''boom''))))) streaming_hi)
   \<and> effects (step (StreamEvent 0 (OnError (JsError (Some (js ''boom''))))) streaming_hi)
       = [StreamSend (build_request None (js ''hi'') (js ''auto'')),
          Alert (js ''Error: boom''),
          SyncSend (build_request None (js ''hi'') (js ''auto''))]"
proof -
  have h: "0 < length (streams streaming_hi)"
    by (simp add: streaming_hi_eval)
  have a: "stream_error_alert (JsError (Some (js ''boom''))) = js ''Error: boom''"
    by (simp add: stream_error_alert_def or_else_def js_def)
  show ?thesis
    using h stream_error_is_explicit [OF h, of "JsError (Some (js ''boom''))" "[]"]
    by (simp add: streaming_hi_eval a request_of_def)
qed

subsection \<open>The message text of a request\<close>

text \<open>
  Claim C6. A blank message (empty, or white space only) is never sent: \<open>handleSend\<close>,
  Enter and the send button leave the page as it is, and every request the page sends in
  any run has a message with a character that is not white space, hence of at least one
  character. At the boundary, the validation of a ChatRequest rejects a message of more
  than 10,000 characters (and an empty one), so a request that is constructed has a
  message of 1 to 10,000 characters.
\<close>

theorem message_text_validated:
  "((\<forall>c\<in>set (message p). isWhiteSpace c) \<longrightarrow>
      handleSend user p = p \<and> step (PressEnter user) p = p \<and> step (ClickSend user) p = p)
   \<and> (\<forall>r\<in>set (requests (effects (run as (initial_page cid)))).
        (\<exists>c\<in>set (req_message r). \<not> isWhiteSpace c) \<and> 1 \<le> length (req_message r))
   \<and> (10000 < length (req_message r) \<longrightarrow> validate_chat_request r = Inl MessageLength)
   \<and> (req_message r = [] \<longrightarrow> validate_chat_request r = Inl MessageLength)
   \<and> (validate_chat_request r = Inr r' \<longrightarrow>
        r' = r \<and> 1 \<le> length (req_message r') \<and> length (req_message r') \<le> 10000)"
proof -
  have a: "(\<forall>c\<in>set (message p). isWhiteSpace c) \<longrightarrow>
      handleSend user p = p \<and> step (PressEnter user) p = p \<and> step (ClickSend user) p = p"
    by (simp add: handleSend_def trim_Nil_iff)
  have b: "\<forall>r\<in>set (requests (effects (run as (initial_page cid)))).
        (\<exists>c\<in>set (req_message r). \<not> isWhiteSpace c) \<and> 1 \<le> length (req_message r)"
  proof
    fix r assume "r \<in> set (requests (effects (run as (initial_page cid))))"
    then have "trim (req_message r) \<noteq> []"
      using sent_requests_ok by (simp add: request_ok_def)
    then have "\<exists>c\<in>set (req_message r). \<not> isWhiteSpace c"
      by (simp add: trim_Nil_iff)
    then show "(\<exists>c\<in>set (req_message r). \<not> isWhiteSpace c) \<and> 1 \<le> length (req_message r)"
      by (cases "req_message r") auto
  qed
  have c: "10000 < length (req_message r) \<longrightarrow> validate_chat_request r = Inl MessageLength"
    "req_message r = [] \<longrightarrow> validate_chat_request r = Inl MessageLength"
    by (simp_all add: validate_chat_request_def)
  have d: "validate_chat_request r = Inr r' \<longrightarrow>
        r' = r \<and> 1 \<le> length (req_message r') \<and> length (req_message r') \<le> 10000"
    by (cases "req_message r") (auto simp: validate_chat_request_def split: if_splits)
  show ?thesis
    using a b c d by blast
qed

theorem message_text_validated_witness:
  "list_all isWhiteSpace (message ((initial_page None)\<lparr>message := js ''  ''\<rparr>))
   \<and> step (PressEnter True) ((initial_page None)\<lparr>message := js ''  ''\<rparr>)
       = (initial_page None)\<lparr>message := js ''  ''\<rparr>
   \<and> build_request None (js ''hi'') (js ''auto'')
       \<in> set (requests (effects (run [TypeText (js ''hi''), PressEnter True] (initial_page None))))
   \<and> \<not> list_all isWhiteSpace (js ''hi'')
   \<and> 10000 < length (req_message (build_request None (replicate 10001 0x61) (js ''auto'')))
   \<and> validate_chat_request (build_request None (replicate 10001 0x61) (js ''auto''))
       = Inl MessageLength
   \<and> validate_chat_request (build_request None (js ''hi'') (js ''auto''))
       = Inr (build_request None (js ''hi'') (js ''auto''))
   \<and> length (req_message (build_request None (js ''hi'') (js ''auto''))) \<le> 10000"
proof -
  let ?blank = "(initial_page None)\<lparr>message := js ''  ''\<rparr>"
  let ?long = "build_request None (replicate 10001 0x61) (js ''auto'')"
  let ?hi = "build_request None (js ''hi'') (js ''auto'')"
  have a: "\<forall>c\<in>set (message ?blank). isWhiteSpace c"
    by (simp add: js_def isWhiteSpace_def)
  have t: "trim (js ''hi'') \<noteq> []" "\<not> list_all isWhiteSpace (js ''hi'')"
    by (simp_all add: trim_def isWhiteSpace_def js_def)
  have b: "?hi \<in> set (requests (effects (run [TypeText (js ''hi''), PressEnter True]
                                          (initial_page None))))"
    using t(1)
    by (simp add: initial_page_def input_disabled_def isPending_def handleSend_def Let_def
        emit_def request_of_def)
  have c: "10000 < length (req_message ?long)"
    by (simp add: build_request_def)
  have d: "validate_chat_request ?hi = Inr ?hi"
    by (simp add: validate_chat_request_def build_request_def js_def)
  have m: "req_message ?hi = js ''hi''"
    by (simp add: build_request_def)
  show ?thesis
    using a b c d t(2)
      message_text_validated [of ?blank True "[TypeText (js ''hi''), PressEnter True]"
        None ?long ?long]
      message_text_validated [of ?blank True "[TypeText (js ''hi''), PressEnter True]"
        None ?hi ?hi]
    by (simp add: m list_all_iff del: step.simps run.simps)
qed

subsection \<open>The generation configuration of a request\<close>

text \<open>
  Claim C7. Every request the page sends, in any run from a fresh page, has temperature
  0.7, which lies in [0.0, 2.0], max_tokens 2048, which lies in [1, 8192], and a model
  that is one of auto, theory-specialist, code-specialist and math-specialist. The
  selected model of a fresh page is auto, and each of the four is selectable: choosing
  the \<open>i\<close>-th menu entry and sending gives a request with that model.
\<close>

theorem client_generation_config:
  "(\<forall>r\<in>set (requests (effects (run as (initial_page cid)))).
       temperature (meta r) = 7 / 10 \<and> 0 \<le> temperature (meta r) \<and> temperature (meta r) \<le> 2
     \<and> max_tokens (meta r) = 2048 \<and> 1 \<le> max_tokens (meta r) \<and> max_tokens (meta r) \<le> 8192
     \<and> model (meta r) \<in> {js ''auto'', js ''theory-specialist'', js ''code-specialist'',
                            js ''math-specialist''})
   \<and> selectedModel (initial_page cid) = js ''auto''
   \<and> (\<forall>i<4. requests (effects (run [SelectModel i, TypeText (js ''hi''), PressEnter True]
                                  (initial_page cid)))
              = [build_request cid (js ''hi'') (models ! i)])"
proof -
  have a: "\<forall>r\<in>set (requests (effects (run as (initial_page cid)))).
       temperature (meta r) = 7 / 10 \<and> 0 \<le> temperature (meta r) \<and> temperature (meta r) \<le> 2
     \<and> max_tokens (meta r) = 2048 \<and> 1 \<le> max_tokens (meta r) \<and> max_tokens (meta r) \<le> 8192
     \<and> model (meta r) \<in> {js ''auto'', js ''theory-specialist'', js ''code-specialist'',
                            js ''math-specialist''}"
  proof
    fix r assume "r \<in> set (requests (effects (run as (initial_page cid))))"
    then have "request_ok r" by (rule sent_requests_ok)
    then show "temperature (meta r) = 7 / 10 \<and> 0 \<le> temperature (meta r) \<and> temperature (meta r) \<le> 2
     \<and> max_tokens (meta r) = 2048 \<and> 1 \<le> max_tokens (meta r) \<and> max_tokens (meta r) \<le> 8192
     \<and> model (meta r) \<in> {js ''auto'', js ''theory-specialist'', js ''code-specialist'',
                            js ''math-specialist''}"
      by (simp add: request_ok_def models_def)
  qed
  have b: "selectedModel (initial_page cid) = js ''auto''"
    by (simp add: initial_page_def)
  have t: "trim (js ''hi'') \<noteq> []"
    by (simp add: trim_def js_def isWhiteSpace_def)
  have c: "\<forall>i<4. requests (effects (run [SelectModel i, TypeText (js ''hi''), PressEnter True]
                                  (initial_page cid)))
              = [build_request cid (js ''hi'') (models ! i)]"
    using t
    by (simp add: initial_page_def models_def input_disabled_def isPending_def handleSend_def
        Let_def emit_def request_of_def)
  show ?thesis
    using a b c by blast
qed

theorem client_generation_config_witness:
  "build_request None (js ''hi'') (js ''auto'')
       \<in> set (requests (effects (run [TypeText (js ''hi''), PressEnter True] (initial_page None))))
   \<and> temperature (meta (build_request None (js ''hi'') (js ''auto''))) = 7 / 10
   \<and> max_tokens (meta (build_request None (js ''hi'') (js ''auto''))) = 2048
   \<and> model (meta (build_request None (js ''hi'') (js ''auto''))) = js ''auto''
   \<and> (3::nat) < 4
   \<and> requests (effects (run [SelectModel 3, TypeText (js ''hi''), PressEnter True]
                            (initial_page None)))
       = [build_request None (js ''hi'') (js ''math-specialist'')]"
proof -
  let ?hi = "build_request None (js ''hi'') (js ''auto'')"
  have t: "trim (js ''hi'') \<noteq> []"
    by (simp add: trim_def isWhiteSpace_def js_def)
  have b: "?hi \<in> set (requests (effects (run [TypeText (js ''hi''), PressEnter True]
                                          (initial_page None))))"
    using t
    by (simp add: initial_page_def input_disabled_def isPending_def handleSend_def Let_def
        emit_def request_of_def)
  have m: "model (meta ?hi) = js ''auto''" "models ! 3 = js ''math-specialist''"
    by (simp_all add: build_request_def models_def)
  have three: "(3::nat) < 4"
    by simp
  show ?thesis
    using b three
      client_generation_config [of "[TypeText (js ''hi''), PressEnter True]" None]
    by (auto simp: m simp del: step.simps run.simps)
qed

section \<open>Properties of the request pipeline\<close>

subsection \<open>RateLimiter\<close>

lemma check_in_window:
  assumes "t div w = k"
  shows "check True store t key limit w
         = (\<lparr> allowed = (store (key, k * w) + 1 \<le> limit),
              remaining = limit - (store (key, k * w) + 1), reset_at = k * w + w \<rparr>,
            store((key, k * w) := store (key, k * w) + 1))"
  using assms by (simp add: check_def window_start_def Let_def)

lemma check_all_same_window:
  assumes "\<forall>t\<in>set ts. t div w = k"
  shows "check_all store key limit w ts
         = (map (\<lambda>j. \<lparr> allowed = (store (key, k * w) + j + 1 \<le> limit),
                        remaining = limit - (store (key, k * w) + j + 1),
                        reset_at = k * w + w \<rparr>) [0..<length ts],
            store((key, k * w) := store (key, k * w) + length ts))"
  using assms
proof (induction ts arbitrary: store)
  case Nil
  then show ?case by simp
next
  case (Cons t ts)
  let ?s = "store((key, k * w) := store (key, k * w) + 1)"
  have t: "t div w = k" and ts: "\<forall>t\<in>set ts. t div w = k"
    using Cons.prems by simp_all
  have idx: "[0..<length (t # ts)] = 0 # map Suc [0..<length ts]"
    by (simp add: upt_conv_Cons map_Suc_upt del: upt_Suc)
  show ?case
    unfolding idx by (auto simp: check_in_window [OF t] Cons.IH [OF ts] o_def fun_eq_iff)
qed

lemma check_all_append:
  "check_all store key limit w (ts @ us)
   = (let (rs, store1) = check_all store key limit w ts;
          (rs', store2) = check_all store1 key limit w us
      in (rs @ rs', store2))"
  by (induction ts arbitrary: store) (simp_all add: Let_def split: prod.splits)

text \<open>
  Claim C5. For any key with a limit of 5 per 60 seconds and no count yet in the two
  windows concerned: of six requests at times in one window the first five are allowed
  and the sixth is rejected with \<^verbatim>\<open>RateLimitExceeded\<close>, whose retry-after hint is
  the time from the sixth request to \<^verbatim>\<open>reset_at\<close>, the end of the window, and is
  positive; a request at a time in the next window is allowed.
\<close>

theorem sixth_request_rejected:
  assumes "length ts = 6" and "\<forall>t\<in>set ts. t div 60 = k" and "t' div 60 = k + 1"
      and "store (key, k * 60) = 0" and "store (key, (k + 1) * 60) = 0"
  shows "map allowed (fst (check_all store key 5 60 (ts @ [t'])))
           = [True, True, True, True, True, False, True]
       \<and> rate_limit_gate (ts ! 5) (fst (check_all store key 5 60 (ts @ [t'])) ! 5)
           = Some (RateLimitExceeded ((k + 1) * 60 - ts ! 5))
       \<and> 0 < (k + 1) * 60 - ts ! 5"
proof -
  let ?f = "\<lambda>j. \<lparr> allowed = (j + 1 \<le> (5::nat)), remaining = 5 - (j + 1),
                   reset_at = k * 60 + 60 \<rparr>"
  let ?s = "store((key, k * 60) := 6)"
  have six: "[0..<6] = [0, 1, 2, 3, 4, 5::nat]"
    by (simp add: upt_conv_Cons)
  have a: "check_all store key 5 60 ts = (map ?f [0..<6], ?s)"
    using check_all_same_window [OF assms(2), of store key 5] assms(1,4) by simp
  have ne: "(key, (k + 1) * 60) \<noteq> (key, k * 60)"
    by simp
  have b: "check True ?s t' key 5 60
             = (\<lparr> allowed = True, remaining = 4, reset_at = (k + 1) * 60 + 60 \<rparr>,
                ?s((key, (k + 1) * 60) := 1))"
    using assms(5) ne by (simp add: check_in_window [OF assms(3)])
  have all: "fst (check_all store key 5 60 (ts @ [t']))
               = map ?f [0..<6] @ [\<lparr> allowed = True, remaining = 4,
                                      reset_at = (k + 1) * 60 + 60 \<rparr>]"
    by (simp add: check_all_append a b)
  have "ts ! 5 \<in> set ts"
    using assms(1) by simp
  then have "ts ! 5 div 60 = k"
    using assms(2) by blast
  then have late: "ts ! 5 < (k + 1) * 60"
    by (simp add: div_less_iff_less_mult mult.commute) 
  show ?thesis
    using late by (simp add: all six rate_limit_gate_def)
qed

theorem sixth_request_rejected_witness:
  "length [0, 10, 20, 30, 40, 50::nat] = 6
   \<and> list_all (\<lambda>t. t div 60 = 0) [0, 10, 20, 30, 40, 50::nat]
   \<and> (60::nat) div 60 = 0 + 1
   \<and> empty_store (''user:u1'', 0 * 60) = 0 \<and> empty_store (''user:u1'', (0 + 1) * 60) = 0
   \<and> map allowed (fst (check_all empty_store ''user:u1'' 5 60 [0, 10, 20, 30, 40, 50, 60]))
       = [True, True, True, True, True, False, True]
   \<and> rate_limit_gate 50 (fst (check_all empty_store ''user:u1'' 5 60 [0, 10, 20, 30, 40, 50, 60]) ! 5)
       = Some (RateLimitExceeded 10)"
proof -
  have h1: "length [0, 10, 20, 30, 40, 50::nat] = 6"
    by simp
  have h2: "\<forall>t\<in>set [0, 10, 20, 30, 40, 50::nat]. t div 60 = 0"
    by simp
  have h3: "(60::nat) div 60 = 0 + 1"
    by simp
  have h4: "empty_store (''user:u1'', 0 * 60) = 0"
    by (simp add: empty_store_def)
  have h5: "empty_store (''user:u1'', (0 + 1) * 60) = 0"
    by (simp add: empty_store_def)
  show ?thesis
    using h1 h2 h3 h4 h5 sixth_request_rejected [OF h1 h2 h3 h4 h5]
    by simp
qed

subsection \<open>Router\<close>

text \<open>
  Claim C3. With a named specialist as the explicit model choice, the Router selects that
  specialist whatever the text is, with strategy explicit and confidence exactly 1; in
  particular the choice math-specialist yields math-specialist.
\<close>

theorem explicit_model_is_selected:
  "decide h (Some (Named e)) text
     = \<lparr> selected = e, strategy = Explicit, confidence = 1, reasons = [''user override''] \<rparr>
   \<and> selected (decide h (Some (Named MathSpecialist)) text) = MathSpecialist
   \<and> confidence (decide h (Some (Named MathSpecialist)) text) = 1"
  by (simp add: decide_def)

theorem explicit_model_is_selected_witness:
  "selected (decide example_heuristics (Some (Named MathSpecialist)) ''def foo(): return bug'')
     = MathSpecialist
   \<and> strategy (decide example_heuristics (Some (Named MathSpecialist)) ''def foo(): return bug'')
     = Explicit
   \<and> confidence (decide example_heuristics (Some (Named MathSpecialist)) ''def foo(): return bug'')
     = 1"
  using explicit_model_is_selected [of example_heuristics MathSpecialist "''def foo(): return bug''"]
  by simp

subsection \<open>ChatOrchestrator\<close>

text \<open>
  Claim C2. A request that one of the two rate checks does not allow, or that the
  input-side safety check blocks, ends in \<^verbatim>\<open>RateLimited\<close> or
  \<^verbatim>\<open>InputBlocked\<close>; the run produces no InferenceResult, persists no Message, and
  contains no call of the inference client and no call of the persistence collaborator.
\<close>

theorem rejected_request_never_infers:
  assumes "rate_rejected cfg env store now who \<or> input_blocked env req"
  shows "produced (send cfg h env store now who how req) = None
       \<and> persisted (send cfg h env store now who how req) = []
       \<and> filter is_inference_or_save (calls (send cfg h env store now who how req)) = []
       \<and> ((\<exists>n. final (send cfg h env store now who how req) = RateLimited n)
          \<or> (\<exists>ls. final (send cfg h env store now who how req) = InputBlocked ls))"
  using assms
  by (auto simp: send_def failed_def rate_rejected_def input_blocked_def rate_limit_gate_def Let_def
      is_inference_or_save_def split: prod.splits option.splits rejection.splits)

theorem rejected_request_never_infers_witness:
  "input_blocked flagging_env example_request
   \<and> final (send example_settings example_heuristics flagging_env empty_store 0
              example_principal Streaming example_request) = InputBlocked [''violence'']
   \<and> produced (send example_settings example_heuristics flagging_env empty_store 0
                 example_principal Streaming example_request) = None
   \<and> persisted (send example_settings example_heuristics flagging_env empty_store 0
                  example_principal Streaming example_request) = []
   \<and> calls (send example_settings example_heuristics flagging_env empty_store 0
              example_principal Streaming example_request)
       = [RateLimiterCheck ''user:u1'', RateLimiterCheck ''ip:10.0.0.1'',
          SafetyClassify InputSide]
   \<and> rate_rejected example_settings permissive_env full_store 0 example_principal
   \<and> final (send example_settings example_heuristics permissive_env full_store 0
              example_principal Streaming example_request) = RateLimited 60
   \<and> filter is_inference_or_save
        (calls (send example_settings example_heuristics permissive_env full_store 0
                  example_principal Streaming example_request)) = []
   \<and> final (send example_settings example_heuristics permissive_env empty_store 0
              example_principal Streaming example_request) = Responded 7"
proof -
  have h1: "input_blocked flagging_env example_request"
    by (simp add: input_blocked_def flagging_env_def classify_def)
  have h2: "rate_rejected example_settings permissive_env full_store 0 example_principal"
    by (simp add: rate_rejected_def example_settings_def permissive_env_def full_store_def
        example_principal_def check_def window_start_def Let_def)
  have e1: "send example_settings example_heuristics flagging_env empty_store 0
              example_principal Streaming example_request
            = failed (InputBlocked [''violence''])
                [RateLimiterCheck ''user:u1'', RateLimiterCheck ''ip:10.0.0.1'',
                 SafetyClassify InputSide]
                (store_after (send example_settings example_heuristics flagging_env empty_store 0
                   example_principal Streaming example_request))"
    by (simp add: send_def example_settings_def flagging_env_def empty_store_def
        example_principal_def check_def window_start_def rate_limit_gate_def classify_def
        failed_def Let_def)
  have e2: "final (send example_settings example_heuristics permissive_env full_store 0
              example_principal Streaming example_request) = RateLimited 60"
    by (simp add: send_def example_settings_def permissive_env_def full_store_def
        example_principal_def check_def window_start_def rate_limit_gate_def failed_def Let_def)
  have e3: "final (send example_settings example_heuristics permissive_env empty_store 0
              example_principal Streaming example_request) = Responded 7"
    by (simp add: send_def example_settings_def permissive_env_def empty_store_def
        example_principal_def example_request_def check_def window_start_def rate_limit_gate_def
        classify_def inference_stage_def infer_def persist_stage_def decide_def classify_text_def
        example_heuristics_def answering_def Let_def)
  have f: "final (failed st cs s) = st" "calls (failed st cs s) = cs" for st cs s
    by (simp_all add: failed_def)
  show ?thesis
    using h1 h2 e2 e3
      rejected_request_never_infers [of example_settings flagging_env empty_store 0
        example_principal example_request example_heuristics Streaming]
      rejected_request_never_infers [of example_settings permissive_env full_store 0
        example_principal example_request example_heuristics Streaming]
    by (simp add: e1 [THEN arg_cong, of final] e1 [THEN arg_cong, of calls] f)
qed

end
